theory Spec2Isabelle
  imports Main "HOL-Library.Signed_Division" "HOL-Library.Word"
begin

unbundle bit_operations_syntax

section \<open>Scene data: rectangles, screens, windows\<close>

text \<open>
  The entry point \<^verbatim>\<open>src/compositor/main.cpp\<close> works on Qt objects through pointers.
  A \<^verbatim>\<open>QScreen *\<close> is only read (its name and geometry), so a screen is the
  record of what is read from it. A \<^verbatim>\<open>QWindow *\<close> is written through, so a window is an
  address into a store of window states.
\<close>

record QRect =
  rect_x :: int
  rect_y :: int
  rect_width :: int
  rect_height :: int

record QScreen =
  screen_name :: string
  screen_geometry :: QRect

datatype Visibility = Hidden | AutomaticVisibility | Windowed | Minimized | Maximized | FullScreen

record QWindow =
  window_screen :: QScreen
  window_geometry :: QRect
  window_visibility :: Visibility

type_synonym window_ptr = nat

type_synonym window_store = "window_ptr \<Rightarrow> QWindow"

section \<open>Window placement (main, lines 263-278)\<close>

text \<open>
  The calls the placement loop makes on the windows, in the order it makes them.
\<close>

datatype qt_call =
    SetScreen window_ptr QScreen
  | ShowNormal window_ptr
  | SetGeometry window_ptr QRect
  | ShowFullScreen window_ptr

text \<open>
  The loop advances \<^verbatim>\<open>windowIter\<close> and \<^verbatim>\<open>screenIter\<close> together and stops as soon as
  either reaches its \<^verbatim>\<open>end()\<close>. An iterator is the rest of its list: dereferencing is
  the head, \<^verbatim>\<open>++\<close> is the tail, and being at \<^verbatim>\<open>end()\<close> is the empty list.
\<close>

fun place_windows :: "bool \<Rightarrow> window_ptr list \<Rightarrow> QScreen list \<Rightarrow> qt_call list" where
  "place_windows windowed (window # windowIter) (screen # screenIter) =
     SetScreen window screen #
     (if windowed then [ShowNormal window]
      else [SetGeometry window (screen_geometry screen), ShowFullScreen window]) @
     place_windows windowed windowIter screenIter"
| "place_windows windowed _ _ = []"

text \<open>
  What each call does to the window it is made on, as Qt documents it:
  \<^verbatim>\<open>setScreen\<close> changes the screen the window belongs to and does not move the window
  (``If the screen is part of a virtual desktop of multiple screens, the window will not
  move automatically to newScreen''); \<^verbatim>\<open>setGeometry\<close> stores the rectangle;
  \<^verbatim>\<open>showNormal\<close> and \<^verbatim>\<open>showFullScreen\<close> make the window visible in the named state.
\<close>

fun qt_apply :: "qt_call \<Rightarrow> window_store \<Rightarrow> window_store" where
  "qt_apply (SetScreen w s) h = h(w := (h w)\<lparr>window_screen := s\<rparr>)"
| "qt_apply (ShowNormal w) h = h(w := (h w)\<lparr>window_visibility := Windowed\<rparr>)"
| "qt_apply (SetGeometry w r) h = h(w := (h w)\<lparr>window_geometry := r\<rparr>)"
| "qt_apply (ShowFullScreen w) h = h(w := (h w)\<lparr>window_visibility := FullScreen\<rparr>)"

definition run_calls :: "qt_call list \<Rightarrow> window_store \<Rightarrow> window_store" where
  "run_calls cs h = fold qt_apply cs h"

fun call_window :: "qt_call \<Rightarrow> window_ptr" where
  "call_window (SetScreen w s) = w"
| "call_window (ShowNormal w) = w"
| "call_window (SetGeometry w r) = w"
| "call_window (ShowFullScreen w) = w"

text \<open>The (window, screen) pairs a sequence of calls establishes, in order.\<close>

fun assignments :: "qt_call list \<Rightarrow> (window_ptr \<times> QScreen) list" where
  "assignments [] = []"
| "assignments (SetScreen w s # cs) = (w, s) # assignments cs"
| "assignments (c # cs) = assignments cs"

text \<open>
  The state of one window after one pass of the loop body, by mode: the screen is set in
  both modes, the geometry only in fullscreen mode.
\<close>

definition place_one :: "bool \<Rightarrow> QScreen \<Rightarrow> QWindow \<Rightarrow> QWindow" where
  "place_one windowed s win =
     (if windowed then win\<lparr>window_screen := s, window_visibility := Windowed\<rparr>
      else win\<lparr>window_screen := s, window_geometry := screen_geometry s,
                window_visibility := FullScreen\<rparr>)"

section \<open>Screen selection (main, lines 225-238)\<close>

text \<open>
  \<^verbatim>\<open>scrNames.contains(scr->name(), Qt::CaseInsensitive)\<close> is a Qt library call:
  a list holds a string when some element has the same length and compares equal under
  case folding, code unit by code unit. Screen names are connector names
  (\<^verbatim>\<open>HDMI-1\<close>, \<^verbatim>\<open>eDP-1\<close>); a \<^typ>\<open>char\<close> is one ASCII code unit, and folding maps
  \<^verbatim>\<open>A\<close>..\<^verbatim>\<open>Z\<close> to \<^verbatim>\<open>a\<close>..\<^verbatim>\<open>z\<close>.
\<close>

definition isUpper :: "char \<Rightarrow> bool" where
  "isUpper c = (65 \<le> (of_char c :: nat) \<and> (of_char c :: nat) \<le> 90)"

definition toLower :: "char \<Rightarrow> char" where
  "toLower c = (if isUpper c then char_of ((of_char c :: nat) + 32) else c)"

definition compare_ci :: "string \<Rightarrow> string \<Rightarrow> bool" where
  "compare_ci a b = (map toLower a = map toLower b)"

definition contains_ci :: "string list \<Rightarrow> string \<Rightarrow> bool" where
  "contains_ci strs s = list_ex (\<lambda>t. length t = length s \<and> compare_ci t s) strs"

datatype diagnostic =
    Warn_no_signal_stack
  | Warn_sigaltstack_failed
  | Warn_sigemptyset_failed
  | Warn_sigaction_failed int
  | Warn_none_of_the_screens_exist "string list"
  | Warn_available_screen string QRect
  | Debug_screen string QRect

text \<open>
  The block under \<^verbatim>\<open>parser.isSet(screenOption)\<close>: \<^verbatim>\<open>None\<close> is the option not set,
  \<^verbatim>\<open>Some scrNames\<close> its values. The result is either the early \<^verbatim>\<open>return -1\<close> with
  the warnings printed before it, or the screens the rest of main goes on with.
\<close>

definition keepers :: "string list \<Rightarrow> QScreen list \<Rightarrow> QScreen list" where
  "keepers scrNames screens = filter (\<lambda>scr. contains_ci scrNames (screen_name scr)) screens"

definition select_screens ::
  "string list option \<Rightarrow> QScreen list \<Rightarrow> (int \<times> diagnostic list) + QScreen list" where
  "select_screens screenOption screens =
     (case screenOption of
        None \<Rightarrow> Inr screens
      | Some scrNames \<Rightarrow>
          if keepers scrNames screens = [] then
            Inl (- 1,
                 Warn_none_of_the_screens_exist scrNames #
                 map (\<lambda>scr. Warn_available_screen (screen_name scr) (screen_geometry scr)) screens)
          else Inr (keepers scrNames screens))"

definition screenCheck :: "QScreen list \<Rightarrow> diagnostic list" where
  "screenCheck screens = map (\<lambda>scr. Debug_screen (screen_name scr) (screen_geometry scr)) screens"

text \<open>
  ``Differs only in letter case'', in the words of the specification: the two names have
  the same length and, position by position, the same character or the two cases of one
  letter.
\<close>

definition same_letter :: "char \<Rightarrow> char \<Rightarrow> bool" where
  "same_letter x y = (x = y \<or> (isUpper x \<and> toLower x = y) \<or> (isUpper y \<and> toLower y = x))"

definition differs_only_in_case :: "string \<Rightarrow> string \<Rightarrow> bool" where
  "differs_only_in_case a b = list_all2 same_letter a b"

section \<open>The log handler qtMsgLog (lines 116-150)\<close>

datatype QtMsgType = QtDebugMsg | QtWarningMsg | QtCriticalMsg | QtFatalMsg | QtInfoMsg

text \<open>
  Of \<^verbatim>\<open>QMessageLogContext\<close> the handler reads \<^verbatim>\<open>function\<close> (a C string or the null
  pointer, here \<^verbatim>\<open>None\<close>) and \<^verbatim>\<open>line\<close>.
\<close>

record QMessageLogContext =
  ctx_function :: "string option"
  ctx_line :: int

text \<open>The \<^verbatim>\<open>switch\<close> that picks the severity character.\<close>

fun typeChar :: "QtMsgType \<Rightarrow> char" where
  "typeChar QtDebugMsg = CHR ''d''"
| "typeChar QtInfoMsg = CHR ''i''"
| "typeChar QtWarningMsg = CHR ''W''"
| "typeChar QtCriticalMsg = CHR ''!''"
| "typeChar QtFatalMsg = CHR ''F''"

subsection \<open>The conversions of printf the handler uses\<close>

definition digit_char :: "nat \<Rightarrow> char" where
  "digit_char d = char_of (48 + d)"

function dec_nat :: "nat \<Rightarrow> string" where
  "dec_nat n = (if n < 10 then [digit_char n] else dec_nat (n div 10) @ [digit_char (n mod 10)])"
  by pat_completeness auto
termination
  by (relation "measure id") auto

declare dec_nat.simps [simp del]

text \<open>\<^verbatim>\<open>%d\<close> and \<^verbatim>\<open>%lld\<close>: a minus sign, then the digits of the magnitude.\<close>

definition dec_int :: "int \<Rightarrow> string" where
  "dec_int i = (if i < 0 then CHR ''-'' # dec_nat (nat (- i)) else dec_nat (nat i))"

text \<open>\<^verbatim>\<open>%6lld\<close>: right-justified in a field of at least six, padded with spaces.\<close>

definition fmt_6lld :: "int \<Rightarrow> string" where
  "fmt_6lld v = replicate (6 - length (dec_int v)) CHR '' '' @ dec_int v"

text \<open>\<^verbatim>\<open>%03lld\<close>: a field of at least three, padded with zeros after the sign.\<close>

definition fmt_03lld :: "int \<Rightarrow> string" where
  "fmt_03lld v =
     (if v < 0 then CHR ''-'' # replicate (2 - length (dec_nat (nat (- v)))) CHR ''0'' @ dec_nat (nat (- v))
      else replicate (3 - length (dec_nat (nat v))) CHR ''0'' @ dec_nat (nat v))"

text \<open>
  A C string read from memory ends before its first NUL byte: what \<^verbatim>\<open>%s\<close> prints of
  its argument and what \<^verbatim>\<open>log.write(const char *)\<close> writes of the buffer.
\<close>

definition c_str :: "string \<Rightarrow> string" where
  "c_str s = takeWhile (\<lambda>c. c \<noteq> CHR 0x00) s"

text \<open>
  \<^verbatim>\<open>snprintf(buf, n, ...)\<close> stores at most \<^verbatim>\<open>n - 1\<close> bytes of the formatted
  text and a terminating NUL.
\<close>

definition snprintf :: "nat \<Rightarrow> string \<Rightarrow> string" where
  "snprintf n formatted = take (n - 1) formatted"

subsection \<open>The log file\<close>

text \<open>
  The function-local \<^verbatim>\<open>static QFile log\<close>: whether it is open, whether opening its
  path can succeed (a fact of the file system), the bytes it has accepted from
  \<^verbatim>\<open>write\<close>, how many of them have left Qt's write buffer for the operating system, and
  the size of that buffer (\<^verbatim>\<open>QFILE_WRITEBUFFER_SIZE\<close> in Qt, 16384).
  The handler opens the file with \<^verbatim>\<open>WriteOnly | Text\<close> and without \<^verbatim>\<open>Unbuffered\<close>, so
  writes are buffered. \<^verbatim>\<open>open\<close> truncates; a write to a file that is not open writes
  nothing.
\<close>

record QFile =
  file_isOpen :: bool
  file_openable :: bool
  file_bytes :: string
  file_flushed :: nat
  file_bufsize :: nat

definition file_open :: "QFile \<Rightarrow> QFile" where
  "file_open f =
     (if file_openable f then f\<lparr>file_isOpen := True, file_bytes := [], file_flushed := 0\<rparr>
      else f)"

text \<open>The bytes waiting in the write buffer, and the bytes that are in the file itself.\<close>

definition pending :: "QFile \<Rightarrow> nat" where
  "pending f = length (file_bytes f) - file_flushed f"


text \<open>
  A buffered write, as Qt's \<^verbatim>\<open>QFileDevice\<close> does it: the buffer is flushed first when the
  new bytes would overflow it, a block larger than the buffer goes to the file directly,
  and anything else only goes into the buffer. Nothing else flushes: the handler calls
  neither \<^verbatim>\<open>flush\<close> nor \<^verbatim>\<open>close\<close>.
\<close>

definition file_write :: "QFile \<Rightarrow> string \<Rightarrow> QFile" where
  "file_write f bytes =
     (if file_isOpen f then
        let f1 = (if pending f + length bytes > file_bufsize f
                  then f\<lparr>file_flushed := length (file_bytes f)\<rparr> else f)
        in if length bytes > file_bufsize f
           then f1\<lparr>file_bytes := file_bytes f1 @ bytes,
                   file_flushed := length (file_bytes f1) + length bytes\<rparr>
           else f1\<lparr>file_bytes := file_bytes f1 @ bytes\<rparr>
      else f)"

definition file_write_cstr :: "QFile \<Rightarrow> string \<Rightarrow> QFile" where
  "file_write_cstr f buf = file_write f (c_str buf)"

datatype handler_outcome = Returned | Aborted

text \<open>
  The two texts formatted into \<^verbatim>\<open>buf\<close>. \<^verbatim>\<open>ts / 1000\<close> and \<^verbatim>\<open>ts % 1000\<close> are C's
  division and remainder on \<^verbatim>\<open>qint64\<close>, which truncate towards zero.
\<close>

definition timestamp_text :: "int \<Rightarrow> QtMsgType \<Rightarrow> string" where
  "timestamp_text ts type =
     ''['' @ fmt_6lld (ts sdiv 1000) @ ''.'' @ fmt_03lld (ts smod 1000) @ '' '' @
     [typeChar type] @ ''] ''"

definition origin_text :: "string \<Rightarrow> int \<Rightarrow> string" where
  "origin_text func line = c_str func @ '':'' @ dec_int line @ '': ''"

text \<open>
  The handler. \<^verbatim>\<open>ts\<close> is what \<^verbatim>\<open>sinceStartup.elapsed()\<close> returns, \<^verbatim>\<open>msg\<close> is
  \<^verbatim>\<open>msg.toUtf8()\<close>; the file is passed in and returned.
\<close>

definition qtMsgLog ::
  "QtMsgType \<Rightarrow> QMessageLogContext \<Rightarrow> string \<Rightarrow> int \<Rightarrow> QFile \<Rightarrow> QFile \<times> handler_outcome" where
  "qtMsgLog type ctx msg ts logf =
     (let log1 = (if \<not> file_isOpen logf then file_open logf else logf);
          log2 = file_write_cstr log1 (snprintf 64 (timestamp_text ts type));
          log3 = (case ctx_function ctx of
                    None \<Rightarrow> log2
                  | Some func \<Rightarrow>
                      file_write_cstr log2 (snprintf 64 (origin_text func (ctx_line ctx))));
          log4 = file_write log3 msg;
          log5 = file_write_cstr log4 [CHR 0x0A]
      in (log5, if type = QtFatalMsg then Aborted else Returned))"

text \<open>
  The blocks of bytes the handler hands to \<^verbatim>\<open>log.write\<close> in one call, one block per
  \<^verbatim>\<open>write\<close>, in order: the two buffers as C strings, the message and the newline.
\<close>

definition written_chunks ::
  "QtMsgType \<Rightarrow> QMessageLogContext \<Rightarrow> string \<Rightarrow> int \<Rightarrow> string list" where
  "written_chunks type ctx msg ts =
     c_str (snprintf 64 (timestamp_text ts type)) #
     (case ctx_function ctx of
        None \<Rightarrow> []
      | Some func \<Rightarrow> [c_str (snprintf 64 (origin_text func (ctx_line ctx)))]) @
     [msg, [CHR 0x0A]]"

text \<open>The same bytes as one text.\<close>

definition written_text :: "QtMsgType \<Rightarrow> QMessageLogContext \<Rightarrow> string \<Rightarrow> int \<Rightarrow> string" where
  "written_text type ctx msg ts =
     c_str (snprintf 64 (timestamp_text ts type)) @
     (case ctx_function ctx of
        None \<Rightarrow> []
      | Some func \<Rightarrow> c_str (snprintf 64 (origin_text func (ctx_line ctx)))) @
     msg @ [CHR 0x0A]"

text \<open>
  The rendering of a record: what one call of the handler leaves in a log file that was
  open and empty.
\<close>

definition open_log :: QFile where
  "open_log =
     \<lparr>file_isOpen = True, file_openable = True, file_bytes = [], file_flushed = 0,
      file_bufsize = 16384\<rparr>"

definition rendered :: "QtMsgType \<Rightarrow> QMessageLogContext \<Rightarrow> string \<Rightarrow> int \<Rightarrow> string" where
  "rendered type ctx msg ts = file_bytes (fst (qtMsgLog type ctx msg ts open_log))"

section \<open>Process-wide state (lines 45-52)\<close>

text \<open>
  The file's static variables that main writes and the signal handler reads, and whether
  \<^verbatim>\<open>qInstallMessageHandler(qtMsgLog)\<close> has been called.
\<close>

record globals =
  grefsonExecutablePath :: string
  grefsonPID :: int
  signalHandlerStack :: nat
  logFilePath :: string
  grefsenConfigDirPath :: string
  messageHandlerInstalled :: bool

section \<open>Signals: setupSignalHandler (lines 78-114)\<close>

text \<open>
  Signal numbers and \<^verbatim>\<open>sigaction\<close> flag bits come from \<^verbatim>\<open><signal.h>\<close>; the values are
  those of Linux, the only system with the \<^verbatim>\<open>prctl\<close> call the handler makes.
\<close>

definition SIGILL :: int where "SIGILL = 4"
definition SIGABRT :: int where "SIGABRT = 6"
definition SIGBUS :: int where "SIGBUS = 7"
definition SIGFPE :: int where "SIGFPE = 8"
definition SIGSEGV :: int where "SIGSEGV = 11"

definition SA_ONSTACK :: "32 word" where "SA_ONSTACK = 0x08000000"
definition SA_NODEFER :: "32 word" where "SA_NODEFER = 0x40000000"
definition SA_RESETHAND :: "32 word" where "SA_RESETHAND = 0x80000000"

datatype sighandler = SIG_DFL | SIG_IGN | SignalHandler

record sigaction_t =
  sa_handler :: sighandler
  sa_mask :: "int set"
  sa_flags :: "32 word"

text \<open>
  What the kernel keeps for the process: the action of each signal, the blocked signals
  and the alternate stack (\<^verbatim>\<open>None\<close>: none installed).
\<close>

record signal_state =
  sig_action :: "int \<Rightarrow> sigaction_t"
  sig_blocked :: "int set"
  sig_altstack :: "nat option"

text \<open>
  What the library and system calls of setupSignalHandler return in a run: the address
  from \<^verbatim>\<open>malloc\<close> (0 is the null pointer) and the return codes of \<^verbatim>\<open>sigaltstack\<close>,
  \<^verbatim>\<open>sigemptyset\<close> and, per signal, \<^verbatim>\<open>sigaction\<close>.
\<close>

record sys_results =
  malloc_result :: nat
  sigaltstack_result :: int
  sigemptyset_result :: int
  sigaction_result :: "int \<Rightarrow> int"

definition signalsToHandle :: "int list" where
  "signalsToHandle = [SIGILL, SIGABRT, SIGFPE, SIGSEGV, SIGBUS, 0]"

text \<open>
  The \<^verbatim>\<open>for\<close> loop over the zero-terminated array: it stops at the first 0, and a
  failed \<^verbatim>\<open>sigaction\<close> only prints a warning.
\<close>

fun install_loop ::
  "sys_results \<Rightarrow> sigaction_t \<Rightarrow> int list \<Rightarrow> signal_state \<Rightarrow> signal_state \<times> diagnostic list" where
  "install_loop sys sa [] st = (st, [])"
| "install_loop sys sa (sig # rest) st =
     (if sig = 0 then (st, [])
      else if sigaction_result sys sig = - 1 then
        (case install_loop sys sa rest st of
           (st', warnings) \<Rightarrow> (st', Warn_sigaction_failed sig # warnings))
      else install_loop sys sa rest (st\<lparr>sig_action := (sig_action st)(sig := sa)\<rparr>))"

text \<open>
  The \<^verbatim>\<open>struct sigaction\<close> built in lines 96-107: the mask emptied by \<^verbatim>\<open>sigemptyset\<close>,
  the handler and the three flags.
\<close>

definition installed_action :: sigaction_t where
  "installed_action =
     \<lparr>sa_handler = SignalHandler, sa_mask = {},
      sa_flags = SA_RESETHAND OR SA_NODEFER OR SA_ONSTACK\<rparr>"

definition setupSignalHandler ::
  "sys_results \<Rightarrow> globals \<Rightarrow> signal_state \<Rightarrow> globals \<times> signal_state \<times> diagnostic list" where
  "setupSignalHandler sys g st =
     (let g' = g\<lparr>signalHandlerStack := malloc_result sys\<rparr> in
      if malloc_result sys = 0 then (g', st, [Warn_no_signal_stack])
      else if sigaltstack_result sys = - 1 then (g', st, [Warn_sigaltstack_failed])
      else
        let st' = st\<lparr>sig_altstack := Some (malloc_result sys)\<rparr> in
        if sigemptyset_result sys = - 1 then (g', st', [Warn_sigemptyset_failed])
        else
          case install_loop sys installed_action signalsToHandle st' of
            (st'', warnings) \<Rightarrow> (g', st'', warnings))"

text \<open>
  Delivery of a signal, as \<^verbatim>\<open>sigaction(2)\<close> describes it. A blocked signal stays
  pending. With the default action or \<^verbatim>\<open>SIG_IGN\<close> no handler runs. Otherwise the handler
  is entered in a changed state: \<^verbatim>\<open>SA_RESETHAND\<close> restores the default action on entry,
  the action's mask is blocked for the time of the handler, and the signal itself is
  blocked too unless \<^verbatim>\<open>SA_NODEFER\<close> is set. The flag of the result says whether the
  handler runs on the alternate stack.
\<close>

datatype delivery = Pending | DefaultAction int | Ignored | HandlerEntered signal_state bool

definition deliver :: "int \<Rightarrow> signal_state \<Rightarrow> delivery" where
  "deliver sig st =
     (let sa = sig_action st sig in
      if sig \<in> sig_blocked st then Pending
      else case sa_handler sa of
        SIG_DFL \<Rightarrow> DefaultAction sig
      | SIG_IGN \<Rightarrow> Ignored
      | SignalHandler \<Rightarrow>
          HandlerEntered
            (st\<lparr>sig_action :=
                   (if sa_flags sa AND SA_RESETHAND \<noteq> 0
                    then (sig_action st)(sig := sa\<lparr>sa_handler := SIG_DFL\<rparr>)
                    else sig_action st),
                 sig_blocked :=
                   sig_blocked st \<union> sa_mask sa \<union>
                   (if sa_flags sa AND SA_NODEFER \<noteq> 0 then {} else {sig})\<rparr>)
            (sa_flags sa AND SA_ONSTACK \<noteq> 0 \<and> sig_altstack st \<noteq> None))"

section \<open>The signal handler (lines 54-76)\<close>

datatype syscall =
    Sys_kill int int
  | Sys_fprintf_stderr string
  | Sys_execl string "string list"
  | Sys_prctl_set_ptracer int
  | Sys_waitpid int
  | Sys_exit int

text \<open>
  How the handler ends: it returns to the interrupted code, the process exits with a
  status, \<^verbatim>\<open>execl\<close> succeeds and the process goes on as a new image of the given
  path and argument vector, the process is killed by a signal, or it stays blocked in a
  call that does not return.
\<close>

datatype handler_end =
    Handler_returned
  | Process_exited int
  | Process_replaced string "string list"
  | Process_killed int
  | Process_blocked

text \<open>
  What happens to the forking process while it runs the parent branch. The branch is not
  alone: the child runs at the same time, and \<^verbatim>\<open>waitpid(pid, 0, 0)\<close> returns only when
  the child has terminated. Either the branch runs to its end undisturbed, or the wait
  never returns, or a signal kills the process when it has made the first \<open>n\<close> of its
  calls.
\<close>

datatype interruption = Undisturbed | Never_returns | Killed_at nat int

definition EXIT_FAILURE :: int where "EXIT_FAILURE = 1"

definition crash_notice :: "globals \<Rightarrow> int \<Rightarrow> string" where
  "crash_notice g sig =
     ''crashed (PID '' @ dec_int (grefsonPID g) @ '' SIG '' @ dec_int sig @ ''): respawn '' @
     c_str (grefsonExecutablePath g) @ [CHR 0x0A]"

text \<open>
  The handler after \<^verbatim>\<open>fork()\<close> has returned \<^verbatim>\<open>pid\<close>, as the system calls it makes in
  order and the way it ends. \<^verbatim>\<open>execl(path, path, (char *) 0)\<close> passes the argument
  vector \<^verbatim>\<open>[path]\<close>; \<^verbatim>\<open>exec_ok\<close> says whether it succeeds, and only when it fails
  does the \<^verbatim>\<open>_exit\<close> after it run. In the parent branch \<^verbatim>\<open>fate\<close> says what happens
  to the process meanwhile: \<^verbatim>\<open>_exit\<close> runs only when the wait has returned, a wait that
  never returns leaves the process in \<^verbatim>\<open>waitpid\<close>, and a process killed by a signal has
  made the calls it had got to, at most the first two (a process killed while it waits
  does not come back from the wait).
\<close>

definition signalHandler ::
  "globals \<Rightarrow> int \<Rightarrow> int \<Rightarrow> bool \<Rightarrow> interruption \<Rightarrow> syscall list \<times> handler_end" where
  "signalHandler g sig pid exec_ok fate =
     (if pid = - 1 then ([], Handler_returned)
      else if pid = 0 then
        (let path = c_str (grefsonExecutablePath g);
             calls = [Sys_kill (grefsonPID g) 9,
                      Sys_fprintf_stderr (crash_notice g sig),
                      Sys_execl path [path]]
         in if exec_ok then (calls, Process_replaced path [path])
            else (calls @ [Sys_exit EXIT_FAILURE], Process_exited EXIT_FAILURE))
      else
        (let calls = [Sys_prctl_set_ptracer pid, Sys_waitpid pid, Sys_exit EXIT_FAILURE]
         in case fate of
              Undisturbed \<Rightarrow> (calls, Process_exited EXIT_FAILURE)
            | Never_returns \<Rightarrow> (take 2 calls, Process_blocked)
            | Killed_at n s \<Rightarrow> (take (min n 2) calls, Process_killed s)))"

text \<open>
  The two processes together. Signal 9 cannot be caught, blocked or ignored: the process
  it is sent to is killed. So when the child's calls include \<^verbatim>\<open>kill(self, 9)\<close>, where
  \<^verbatim>\<open>self\<close> is the pid of the process that forked, that process is killed, at the point
  \<open>n\<close> of its branch it has reached; the child makes the call first of all, before it can
  terminate, so the parent's wait has not returned by then. Otherwise the parent's fate
  is whatever else happens to it.
\<close>

definition fate_of_parent :: "int \<Rightarrow> syscall list \<Rightarrow> nat \<Rightarrow> interruption \<Rightarrow> interruption" where
  "fate_of_parent self child_calls n otherwise =
     (if Sys_kill self 9 \<in> set child_calls then Killed_at n 9 else otherwise)"

text \<open>
  The run of the crashed process \<^verbatim>\<open>self\<close> through the handler when its \<^verbatim>\<open>fork\<close> has
  returned \<^verbatim>\<open>pid\<close>: its fate is decided by what the child, in its own branch, does.
\<close>

definition crashed_process ::
  "globals \<Rightarrow> int \<Rightarrow> int \<Rightarrow> int \<Rightarrow> bool \<Rightarrow> nat \<Rightarrow> interruption \<Rightarrow> syscall list \<times> handler_end" where
  "crashed_process g self sig pid exec_ok n otherwise =
     signalHandler g sig pid exec_ok
       (fate_of_parent self (fst (signalHandler g sig 0 exec_ok Undisturbed)) n otherwise)"

text \<open>The \<^verbatim>\<open>execl\<close> calls among a sequence of system calls: path and argument vector.\<close>

fun exec_calls :: "syscall list \<Rightarrow> (string \<times> string list) list" where
  "exec_calls [] = []"
| "exec_calls (Sys_execl path argv # cs) = (path, argv) # exec_calls cs"
| "exec_calls (c # cs) = exec_calls cs"

text \<open>The status a parent reads of a process that exited with a code: its low 8 bits.\<close>

definition exit_status :: "int \<Rightarrow> int" where
  "exit_status code = code mod 256"

section \<open>main (lines 166-281)\<close>

text \<open>
  The command line after \<^verbatim>\<open>parser.process(app)\<close>: for each option whether it is set,
  and its value or values.
\<close>

record config =
  respawnOption :: bool
  logFileOption :: "string option"
  configDirOption :: "string option"
  screenOption :: "string list option"
  windowOption :: bool

text \<open>
  What main reads of its surroundings: the application's path (in the local 8-bit
  encoding) and process id, the home directory, the screens of
  \<^verbatim>\<open>QGuiApplication::screens()\<close>, the windows of \<^verbatim>\<open>root->findChildren<QWindow *>()\<close>,
  the results of the system calls and the signal state at startup.
\<close>

record app_env =
  applicationFilePath :: string
  applicationPid :: int
  homePath :: string
  gui_screens :: "QScreen list"
  scene_windows :: "window_ptr list"
  sys_calls :: sys_results
  startup_signals :: signal_state

datatype main_end = Return int | Exec

record main_run =
  run_globals :: globals
  run_signals :: signal_state
  run_diagnostics :: "diagnostic list"
  run_qt_calls :: "qt_call list"
  run_end :: main_end

definition initial_globals :: "string \<Rightarrow> globals" where
  "initial_globals home =
     \<lparr>grefsonExecutablePath = [], grefsonPID = 0, signalHandlerStack = 0, logFilePath = [],
      grefsenConfigDirPath = home @ ''/.config/grefsen/'', messageHandlerInstalled = False\<rparr>"

text \<open>
  main up to \<^verbatim>\<open>app.exec()\<close>. Environment variables, fonts and the loading of the QML
  scene do not touch the state below and are left out.
\<close>

definition main :: "app_env \<Rightarrow> config \<Rightarrow> main_run" where
  "main env cfg =
     (let g1 = (initial_globals (homePath env))
                 \<lparr>grefsonExecutablePath := applicationFilePath env,
                  grefsonPID := applicationPid env\<rparr>;
          (g2, st, warnings) =
             (if respawnOption cfg then setupSignalHandler (sys_calls env) g1 (startup_signals env)
              else (g1, startup_signals env, []));
          g3 = (case configDirOption cfg of
                  Some dir \<Rightarrow> g2\<lparr>grefsenConfigDirPath := dir\<rparr>
                | None \<Rightarrow> g2);
          g4 = (case logFileOption cfg of
                  Some file \<Rightarrow> g3\<lparr>logFilePath := file, messageHandlerInstalled := True\<rparr>
                | None \<Rightarrow> g3)
      in case select_screens (screenOption cfg) (gui_screens env) of
           Inl (code, notes) \<Rightarrow>
             \<lparr>run_globals = g4, run_signals = st, run_diagnostics = warnings @ notes,
              run_qt_calls = [], run_end = Return code\<rparr>
         | Inr screens \<Rightarrow>
             \<lparr>run_globals = g4, run_signals = st,
              run_diagnostics = warnings @ screenCheck screens,
              run_qt_calls = place_windows (windowOption cfg) (scene_windows env) screens,
              run_end = Exec\<rparr>)"

section \<open>The specification's wording\<close>

text \<open>
  The placement the specification describes for an assigned window: in windowed mode
  shown non-fullscreen at the display's origin, otherwise with exactly the display's
  bounds and fullscreen.
\<close>

definition spec_placement :: "bool \<Rightarrow> QScreen \<Rightarrow> QWindow \<Rightarrow> bool" where
  "spec_placement windowed s win =
     (if windowed then
        window_visibility win = Windowed \<and>
        rect_x (window_geometry win) = rect_x (screen_geometry s) \<and>
        rect_y (window_geometry win) = rect_y (screen_geometry s)
      else window_geometry win = screen_geometry s \<and> window_visibility win = FullScreen)"



section \<open>Sample inputs\<close>



definition hdmi1 :: QScreen where
  "hdmi1 = \<lparr>screen_name = ''HDMI-1'',
            screen_geometry = \<lparr>rect_x = 0, rect_y = 0, rect_width = 1920, rect_height = 1080\<rparr>\<rparr>"

definition edp1 :: QScreen where
  "edp1 = \<lparr>screen_name = ''eDP-1'',
           screen_geometry = \<lparr>rect_x = 1920, rect_y = 0, rect_width = 1366, rect_height = 768\<rparr>\<rparr>"

definition fresh_window :: QWindow where
  "fresh_window =
     \<lparr>window_screen = hdmi1,
      window_geometry = \<lparr>rect_x = 5, rect_y = 5, rect_width = 640, rect_height = 480\<rparr>,
      window_visibility = Hidden\<rparr>"

definition startup_state :: signal_state where
  "startup_state =
     \<lparr>sig_action = (\<lambda>sig. \<lparr>sa_handler = SIG_DFL, sa_mask = {}, sa_flags = 0\<rparr>),
      sig_blocked = {}, sig_altstack = None\<rparr>"

definition calls_succeed :: sys_results where
  "calls_succeed =
     \<lparr>malloc_result = 4096, sigaltstack_result = 0, sigemptyset_result = 0,
      sigaction_result = (\<lambda>sig. 0)\<rparr>"

definition sample_env :: app_env where
  "sample_env =
     \<lparr>applicationFilePath = ''/usr/bin/grefsen'', applicationPid = 4242,
      homePath = ''/home/user'', gui_screens = [hdmi1, edp1], scene_windows = [7, 8, 9],
      sys_calls = calls_succeed, startup_signals = startup_state\<rparr>"

definition sample_config :: config where
  "sample_config =
     \<lparr>respawnOption = True, logFileOption = None, configDirOption = None,
      screenOption = None, windowOption = False\<rparr>"

definition no_such_screen_config :: config where
  "no_such_screen_config = sample_config\<lparr>screenOption := Some [''nonexistent'']\<rparr>"

definition long_function_name :: string where
  "long_function_name =
     ''void Compositor::surfaceAboutToBeDestroyed(QWaylandSurface *surface)''"

section \<open>Window placement: the pairing and the mode\<close>

lemma assignments_append:
  "assignments (cs @ ds) = assignments cs @ assignments ds"
  by (induction cs rule: assignments.induct) simp_all

lemma assignments_place_windows:
  "assignments (place_windows windowed W D) = zip W D"
  by (induction windowed W D rule: place_windows.induct) (simp_all add: assignments_append)

lemma call_window_place_windows:
  "call_window ` set (place_windows windowed W D) = set (take (length D) W)"
  by (induction windowed W D rule: place_windows.induct) auto

lemma run_calls_Nil: "run_calls [] h = h"
  by (simp add: run_calls_def)

lemma run_calls_Cons: "run_calls (c # cs) h = run_calls cs (qt_apply c h)"
  by (simp add: run_calls_def)

lemma qt_apply_other: "call_window c \<noteq> w \<Longrightarrow> qt_apply c h w = h w"
  by (cases c) simp_all

lemma run_calls_other:
  "w \<notin> call_window ` set cs \<Longrightarrow> run_calls cs h w = h w"
  by (induction cs arbitrary: h) (simp_all add: run_calls_Nil run_calls_Cons qt_apply_other)

lemma run_place_windows_nth:
  "distinct W \<Longrightarrow> i < length W \<Longrightarrow> i < length D \<Longrightarrow>
   run_calls (place_windows windowed W D) h (W ! i) = place_one windowed (D ! i) (h (W ! i))"
proof (induction windowed W D arbitrary: h i rule: place_windows.induct)
  case (1 windowed window windowIter screen screenIter)
  show ?case
  proof (cases i)
    case 0
    have "\<And>b. window \<notin> call_window ` set (place_windows b windowIter screenIter)"
      using "1.prems"(1) by (auto simp: call_window_place_windows dest: in_set_takeD)
    then show ?thesis
      using 0 by (simp add: run_calls_Cons run_calls_other place_one_def)
  next
    case (Suc j)
    then have j: "j < length windowIter" "j < length screenIter" "distinct windowIter"
      and ne: "windowIter ! j \<noteq> window"
      using "1.prems" by auto
    show ?thesis
      using Suc ne "1.IH"[OF j(3) j(1) j(2)]
      by (cases windowed) (simp_all add: run_calls_Cons)
  qed
qed simp_all

lemma main_reaches_exec:
  assumes "select_screens (screenOption cfg) (gui_screens env) = Inr D"
  shows "run_end (main env cfg) = Exec"
    and "run_qt_calls (main env cfg) = place_windows (windowOption cfg) (scene_windows env) D"
  using assms by (simp_all add: main_def Let_def split: prod.splits)

text \<open>
  Claim C1. For all window and screen sequences the loop pairs the i-th window with the
  i-th screen, in order, and makes \<open>min (length W) (length D)\<close> pairs; the pairs are the
  same in windowed and in fullscreen mode; the windows it calls are exactly the first
  \<open>length D\<close> of \<open>W\<close>, so a surplus window or screen is left alone; and whatever the two
  lengths, main goes on to \<^verbatim>\<open>app.exec()\<close>.
\<close>

theorem window_display_pairing:
  "assignments (place_windows windowed W D) = zip W D \<and>
   length (assignments (place_windows windowed W D)) = min (length W) (length D) \<and>
   (\<forall>i < min (length W) (length D).
      assignments (place_windows windowed W D) ! i = (W ! i, D ! i)) \<and>
   assignments (place_windows True W D) = assignments (place_windows False W D) \<and>
   call_window ` set (place_windows windowed W D) = set (take (length D) W) \<and>
   (select_screens (screenOption cfg) (gui_screens env) = Inr D \<longrightarrow>
      run_end (main env cfg) = Exec \<and>
      assignments (run_qt_calls (main env cfg)) = zip (scene_windows env) D)"
proof -
  have pairs: "\<And>b. assignments (place_windows b W D) = zip W D"
    by (rule assignments_place_windows)
  have "select_screens (screenOption cfg) (gui_screens env) = Inr D \<Longrightarrow>
      run_end (main env cfg) = Exec \<and>
      assignments (run_qt_calls (main env cfg)) = zip (scene_windows env) D"
    by (simp add: main_reaches_exec assignments_place_windows)
  then show ?thesis
    by (simp add: pairs call_window_place_windows)
qed

theorem window_display_pairing_witness:
  "assignments (place_windows True [7, 8, 9] [hdmi1, edp1]) = [(7, hdmi1), (8, edp1)] \<and>
   length (assignments (place_windows True [7, 8, 9] [hdmi1, edp1])) = 2 \<and>
   call_window ` set (place_windows True [7, 8, 9] [hdmi1, edp1]) = {7, 8} \<and>
   run_end (main sample_env sample_config) = Exec \<and>
   assignments (run_qt_calls (main sample_env sample_config)) = [(7, hdmi1), (8, edp1)]"
proof -
  have sel: "select_screens (screenOption sample_config) (gui_screens sample_env) = Inr [hdmi1, edp1]"
    by (simp add: select_screens_def sample_config_def sample_env_def)
  show ?thesis
    using window_display_pairing[of True "[7, 8, 9]" "[hdmi1, edp1]" sample_config sample_env] sel
    by (simp add: sample_env_def)
qed

text \<open>
  Claim C5, as amended. For windows that are pairwise distinct, the i-th window ends on
  the i-th screen. In fullscreen mode its geometry is exactly the screen's and it is shown
  fullscreen, as the specification says. In windowed mode it is shown in the normal state
  and its geometry is what it was before: the loop sets no position.
\<close>

theorem placement_by_mode:
  assumes "distinct W" "i < length W" "i < length D"
  shows "run_calls (place_windows windowed W D) h (W ! i) =
           (if windowed
            then (h (W ! i))\<lparr>window_screen := D ! i, window_visibility := Windowed\<rparr>
            else (h (W ! i))\<lparr>window_screen := D ! i, window_geometry := screen_geometry (D ! i),
                             window_visibility := FullScreen\<rparr>) \<and>
         (windowed \<longrightarrow>
            window_geometry (run_calls (place_windows windowed W D) h (W ! i)) =
            window_geometry (h (W ! i))) \<and>
         (\<not> windowed \<longrightarrow>
            spec_placement False (D ! i) (run_calls (place_windows windowed W D) h (W ! i)))"
  using run_place_windows_nth[OF assms, of windowed h]
  by (cases windowed) (simp_all add: place_one_def spec_placement_def)

theorem placement_by_mode_witness:
  "run_calls (place_windows True [7, 8, 9] [hdmi1, edp1]) (\<lambda>w. fresh_window) 8 =
     fresh_window\<lparr>window_screen := edp1, window_visibility := Windowed\<rparr> \<and>
   run_calls (place_windows False [7, 8, 9] [hdmi1, edp1]) (\<lambda>w. fresh_window) 8 =
     fresh_window\<lparr>window_screen := edp1, window_geometry := screen_geometry edp1,
                  window_visibility := FullScreen\<rparr>"
  using placement_by_mode[of "[7, 8, 9]" 1 "[hdmi1, edp1]" True "\<lambda>w. fresh_window"]
        placement_by_mode[of "[7, 8, 9]" 1 "[hdmi1, edp1]" False "\<lambda>w. fresh_window"]
  by simp

text \<open>
  The claim as the specification words it fails in windowed mode: a window at (5, 5)
  assigned to the screen whose origin is (1920, 0) is still at (5, 5) after the loop.
\<close>

theorem windowed_not_at_origin:
  "\<not> spec_placement True edp1
       (run_calls (place_windows True [7, 8, 9] [hdmi1, edp1]) (\<lambda>w. fresh_window) 8)"
  by (simp add: run_calls_def spec_placement_def fresh_window_def edp1_def)

section \<open>The log handler: what is written, and when the process aborts\<close>

lemma digit_char_not_NUL: "d < 10 \<Longrightarrow> digit_char d \<noteq> CHR 0x00"
proof
  assume d: "d < 10" and "digit_char d = CHR 0x00"
  then have "(of_char (char_of (48 + d)) :: nat) = of_char (CHR 0x00)"
    by (simp add: digit_char_def)
  then show False using d by simp
qed

lemma dec_nat_no_NUL: "CHR 0x00 \<notin> set (dec_nat n)"
proof (induction n rule: dec_nat.induct)
  case (1 n)
  show ?case
  proof (cases "n < 10")
    case True
    then show ?thesis
      using digit_char_not_NUL[of n] by (subst dec_nat.simps) auto
  next
    case False
    then show ?thesis
      using "1.IH" digit_char_not_NUL[of "n mod 10"]
      by (subst dec_nat.simps) auto
  qed
qed

lemma dec_int_no_NUL: "CHR 0x00 \<notin> set (dec_int i)"
  by (simp add: dec_int_def dec_nat_no_NUL)

lemma c_str_no_NUL: "CHR 0x00 \<notin> set (c_str s)"
  unfolding c_str_def by (induction s) auto

lemma c_str_id: "CHR 0x00 \<notin> set s \<Longrightarrow> c_str s = s"
  unfolding c_str_def by (induction s) auto

lemma length_dec_nat: "n < 10 ^ k \<Longrightarrow> 0 < k \<Longrightarrow> length (dec_nat n) \<le> k"
proof (induction n arbitrary: k rule: dec_nat.induct)
  case (1 n)
  show ?case
  proof (cases "n < 10")
    case True
    then show ?thesis using "1.prems" by (subst dec_nat.simps) simp
  next
    case False
    then obtain j where k: "k = Suc j"
      using "1.prems" by (cases k) auto
    with False "1.prems" have j: "0 < j"
      by (cases j) auto
    have "n div 10 < 10 ^ j"
      using "1.prems"(1) k by (simp add: less_mult_imp_div_less mult.commute)
    then have "length (dec_nat (n div 10)) \<le> j"
      using "1.IH"[OF False _ j] by simp
    then show ?thesis using False k by (subst dec_nat.simps) simp
  qed
qed

lemma length_dec_nat_pos: "0 < length (dec_nat n)"
  by (subst dec_nat.simps) simp

lemma sdiv_nonneg: "0 \<le> (ts::int) \<Longrightarrow> ts sdiv 1000 = ts div 1000"
  by (cases "ts = 0") (simp_all add: signed_divide_int_def)

lemma smod_nonneg: "0 \<le> (ts::int) \<Longrightarrow> ts smod 1000 = ts mod 1000"
  by (cases "ts = 0") (simp_all add: signed_modulo_int_def)

lemma typeChar_not_NUL: "typeChar type \<noteq> CHR 0x00"
  by (cases type) simp_all

lemma fmt_6lld_no_NUL: "CHR 0x00 \<notin> set (fmt_6lld v)"
  by (simp add: fmt_6lld_def dec_int_no_NUL)

lemma fmt_03lld_no_NUL: "CHR 0x00 \<notin> set (fmt_03lld v)"
  by (simp add: fmt_03lld_def dec_nat_no_NUL)

lemma timestamp_text_no_NUL: "CHR 0x00 \<notin> set (timestamp_text ts type)"
  using typeChar_not_NUL[of type]
  by (auto simp: timestamp_text_def fmt_6lld_no_NUL fmt_03lld_no_NUL)

lemma origin_text_no_NUL: "CHR 0x00 \<notin> set (origin_text func line)"
  by (simp add: origin_text_def c_str_no_NUL dec_int_no_NUL)

lemma length_fmt_6lld: "0 \<le> v \<Longrightarrow> v < 10 ^ 16 \<Longrightarrow> length (fmt_6lld v) \<le> 16"
proof -
  assume v: "0 \<le> v" "v < 10 ^ 16"
  then have "nat v < 10 ^ 16"
    by (simp add: nat_less_iff)
  then have "length (dec_nat (nat v)) \<le> 16"
    by (rule length_dec_nat) simp
  then show ?thesis
    using v by (simp add: fmt_6lld_def dec_int_def)
qed

lemma length_fmt_03lld: "0 \<le> v \<Longrightarrow> v < 1000 \<Longrightarrow> length (fmt_03lld v) = 3"
proof -
  assume v: "0 \<le> v" "v < 1000"
  then have "nat v < 10 ^ 3"
    by (simp add: nat_less_iff)
  then have "length (dec_nat (nat v)) \<le> 3"
    by (rule length_dec_nat) simp
  then show ?thesis
    using v length_dec_nat_pos[of "nat v"] by (simp add: fmt_03lld_def)
qed

lemma length_timestamp_text:
  assumes "0 \<le> ts" "ts < 2 ^ 63"
  shows "length (timestamp_text ts type) \<le> 63"
proof -
  have "ts div 1000 < 10 ^ 16" "0 \<le> ts div 1000"
    using assms by simp_all
  then have a: "length (fmt_6lld (ts div 1000)) \<le> 16"
    using length_fmt_6lld by blast
  have b: "length (fmt_03lld (ts mod 1000)) = 3"
    by (rule length_fmt_03lld) simp_all
  show ?thesis
    using a b assms(1) by (simp add: timestamp_text_def sdiv_nonneg smod_nonneg)
qed

lemma timestamp_buf:
  assumes "0 \<le> ts" "ts < 2 ^ 63"
  shows "c_str (snprintf 64 (timestamp_text ts type)) = timestamp_text ts type"
  using length_timestamp_text[OF assms, of type] timestamp_text_no_NUL[of ts type]
  by (simp add: snprintf_def c_str_id)

lemma origin_buf:
  "c_str (snprintf 64 (origin_text func line)) = take 63 (origin_text func line)"
proof -
  have "CHR 0x00 \<notin> set (take 63 (origin_text func line))"
    using origin_text_no_NUL[of func line] by (auto dest: in_set_takeD)
  then show ?thesis
    by (simp add: snprintf_def c_str_id)
qed

lemma c_str_newline: "c_str [CHR 0x0A] = [CHR 0x0A]"
  by (simp add: c_str_def)

lemma file_write_open:
  assumes "file_isOpen f"
  shows "file_bytes (file_write f b) = file_bytes f @ b"
    and "file_isOpen (file_write f b)"
    and "file_bufsize (file_write f b) = file_bufsize f"
  using assms by (simp_all add: file_write_def Let_def)


lemma foldl_write_open:
  "file_isOpen f \<Longrightarrow>
   file_bytes (foldl file_write f bs) = file_bytes f @ concat bs \<and>
   file_isOpen (foldl file_write f bs)"
  by (induction bs arbitrary: f) (simp_all add: file_write_open)



lemma concat_written_chunks:
  "concat (written_chunks type ctx msg ts) = written_text type ctx msg ts"
  by (cases "ctx_function ctx") (simp_all add: written_chunks_def written_text_def)

lemma qtMsgLog_writes:
  "fst (qtMsgLog type ctx msg ts f) =
     foldl file_write (if \<not> file_isOpen f then file_open f else f)
       (written_chunks type ctx msg ts)"
  by (cases "ctx_function ctx")
     (simp_all add: qtMsgLog_def Let_def file_write_cstr_def written_chunks_def c_str_newline)

lemma qtMsgLog_open:
  assumes "file_isOpen f"
  shows "file_bytes (fst (qtMsgLog type ctx msg ts f)) =
           file_bytes f @ written_text type ctx msg ts"
  using assms by (simp add: qtMsgLog_writes foldl_write_open concat_written_chunks)





lemma rendered_eq: "rendered type ctx msg ts = written_text type ctx msg ts"
  by (simp add: rendered_def qtMsgLog_open open_log_def)

lemma fmt_03lld_digits:
  assumes "0 \<le> m" "m < 1000"
  shows "fmt_03lld m =
    [digit_char (nat m div 100), digit_char (nat m div 10 mod 10), digit_char (nat m mod 10)]"
proof -
  define n where "n = nat m"
  have n: "n < 1000" using assms by (simp add: n_def)
  have d0: "digit_char 0 = CHR ''0''" by code_simp
  consider "n < 10" | "10 \<le> n" "n < 100" | "100 \<le> n" by linarith
  then have "replicate (3 - length (dec_nat n)) CHR ''0'' @ dec_nat n =
     [digit_char (n div 100), digit_char (n div 10 mod 10), digit_char (n mod 10)]"
  proof cases
    case 1
    then show ?thesis
      by (subst (1 2) dec_nat.simps) (simp add: d0 numeral_2_eq_2)
  next
    case 2
    then have "n div 10 < 10" by simp
    with 2 show ?thesis
      by (simp add: dec_nat.simps[of n] dec_nat.simps[of "n div 10"] d0)
  next
    case 3
    then have a: "\<not> n div 10 < 10" "n div 10 div 10 < 10" "\<not> n < 10"
      using n by simp_all
    have "dec_nat n = [digit_char (n div 10 div 10), digit_char (n div 10 mod 10), digit_char (n mod 10)]"
      using a by (simp add: dec_nat.simps[of n] dec_nat.simps[of "n div 10"] dec_nat.simps[of "n div 10 div 10"])
    then show ?thesis by (simp add: div_mult2_eq[symmetric])
  qed
  then show ?thesis using assms by (simp add: fmt_03lld_def n_def)
qed

lemma written_text_nonneg:
  assumes "0 \<le> ts" "ts < 2 ^ 63"
  shows "written_text type ctx msg ts =
           timestamp_text ts type @
           (case ctx_function ctx of
              None \<Rightarrow> []
            | Some func \<Rightarrow> take 63 (origin_text func (ctx_line ctx))) @
           msg @ [CHR 0x0A]"
  by (cases "ctx_function ctx") (simp_all add: written_text_def timestamp_buf[OF assms] origin_buf)





text \<open>
  Claim C4, as amended. For every record with a non-negative elapsed time (in the range
  of \<^verbatim>\<open>qint64\<close>) the handler appends: \<^verbatim>\<open>[\<close>, the seconds right-justified in a field of
  six, a dot, the three digits of the milliseconds, a space, the severity character,
  \<^verbatim>\<open>] \<close>; then, when the call site has a function name, the first 63 bytes of
  \<^verbatim>\<open>function:line: \<close>; then the message and a newline. The severity characters are d, i,
  W, ! and F. The record of the specification's example (1234 ms, warning, foo, line 10,
  bar) renders with five spaces before the 1.
\<close>

theorem log_record_format:
  assumes "0 \<le> ts" "ts < 2 ^ 63"
  shows
  "rendered type ctx msg ts =
     ''['' @ fmt_6lld (ts div 1000) @ ''.'' @
     [digit_char (nat (ts mod 1000) div 100), digit_char (nat (ts mod 1000) div 10 mod 10),
      digit_char (nat (ts mod 1000) mod 10)] @
     '' '' @ [typeChar type] @ ''] '' @
     (case ctx_function ctx of
        None \<Rightarrow> []
      | Some func \<Rightarrow> take 63 (c_str func @ '':'' @ dec_int (ctx_line ctx) @ '': '')) @
     msg @ [CHR 0x0A] \<and>
   length (fmt_6lld (ts div 1000)) = max 6 (length (dec_nat (nat (ts div 1000)))) \<and>
   (file_isOpen f \<longrightarrow>
      file_bytes (fst (qtMsgLog type ctx msg ts f)) = file_bytes f @ rendered type ctx msg ts) \<and>
   typeChar QtDebugMsg = CHR ''d'' \<and> typeChar QtInfoMsg = CHR ''i'' \<and>
   typeChar QtWarningMsg = CHR ''W'' \<and> typeChar QtCriticalMsg = CHR ''!'' \<and>
   typeChar QtFatalMsg = CHR ''F'' \<and>
   rendered QtWarningMsg \<lparr>ctx_function = Some ''foo'', ctx_line = 10\<rparr> ''bar'' 1234 =
     ''[     1.234 W] foo:10: bar'' @ [CHR 0x0A]"
proof -
  have millis: "fmt_03lld (ts mod 1000) =
     [digit_char (nat (ts mod 1000) div 100), digit_char (nat (ts mod 1000) div 10 mod 10),
      digit_char (nat (ts mod 1000) mod 10)]"
    by (rule fmt_03lld_digits) simp_all
  have stamp: "timestamp_text ts type =
     ''['' @ fmt_6lld (ts div 1000) @ ''.'' @ fmt_03lld (ts mod 1000) @ '' '' @
     [typeChar type] @ ''] ''"
    using assms(1) by (simp add: timestamp_text_def sdiv_nonneg smod_nonneg)
  have a: "rendered type ctx msg ts =
     ''['' @ fmt_6lld (ts div 1000) @ ''.'' @
     [digit_char (nat (ts mod 1000) div 100), digit_char (nat (ts mod 1000) div 10 mod 10),
      digit_char (nat (ts mod 1000) mod 10)] @
     '' '' @ [typeChar type] @ ''] '' @
     (case ctx_function ctx of
        None \<Rightarrow> []
      | Some func \<Rightarrow> take 63 (c_str func @ '':'' @ dec_int (ctx_line ctx) @ '': '')) @
     msg @ [CHR 0x0A]"
    unfolding rendered_eq written_text_nonneg[OF assms] stamp millis
    by (simp add: origin_text_def split: option.splits)
  have b: "length (fmt_6lld (ts div 1000)) = max 6 (length (dec_nat (nat (ts div 1000))))"
  proof -
    have "0 \<le> ts div 1000"
      using assms(1) by simp
    then show ?thesis
      by (simp add: fmt_6lld_def dec_int_def max_def)
  qed
  have c: "file_isOpen f \<Longrightarrow>
      file_bytes (fst (qtMsgLog type ctx msg ts f)) = file_bytes f @ rendered type ctx msg ts"
    by (simp add: qtMsgLog_open rendered_eq)
  have d: "rendered QtWarningMsg \<lparr>ctx_function = Some ''foo'', ctx_line = 10\<rparr> ''bar'' 1234 =
     ''[     1.234 W] foo:10: bar'' @ [CHR 0x0A]"
    unfolding rendered_eq by code_simp
  show ?thesis
    using a b c d by simp
qed

theorem log_record_format_witness:
  "rendered QtCriticalMsg \<lparr>ctx_function = None, ctx_line = 0\<rparr> ''lost'' 98765 =
     ''[    98.765 !] lost'' @ [CHR 0x0A] \<and>
   file_bytes (fst (qtMsgLog QtCriticalMsg \<lparr>ctx_function = None, ctx_line = 0\<rparr> ''lost'' 98765 open_log)) =
     ''[    98.765 !] lost'' @ [CHR 0x0A]"
proof -
  have r: "rendered QtCriticalMsg \<lparr>ctx_function = None, ctx_line = 0\<rparr> ''lost'' 98765 =
     ''[    98.765 !] lost'' @ [CHR 0x0A]"
    unfolding rendered_eq by code_simp
  have h: "(0::int) \<le> 98765" "(98765::int) < 2 ^ 63"
    by simp_all
  show ?thesis
    using log_record_format[OF h, of QtCriticalMsg "\<lparr>ctx_function = None, ctx_line = 0\<rparr>" "''lost''" open_log] r
    by (simp add: open_log_def)
qed

text \<open>
  The rendering the specification gives for its example has three spaces before the 1;
  the handler's field of six gives five.
\<close>

theorem spec_example_rendering_differs:
  "rendered QtWarningMsg \<lparr>ctx_function = Some ''foo'', ctx_line = 10\<rparr> ''bar'' 1234 \<noteq>
     ''[   1.234 W] foo:10: bar'' @ [CHR 0x0A]"
  unfolding rendered_eq by code_simp

text \<open>
  Claim C10. The origin segment goes through the 64-byte buffer: when
  \<^verbatim>\<open>function:line: \<close> is longer than 63 bytes, exactly its first 63 bytes are written
  (so the written segment differs from the full text), after the timestamp and before
  the message, which is written whole together with the newline.
\<close>

theorem origin_truncated_to_63_bytes:
  assumes "0 \<le> ts" "ts < 2 ^ 63" "file_isOpen f"
    and "ctx_function ctx = Some func"
    and "63 < length (origin_text func (ctx_line ctx))"
  shows "file_bytes (fst (qtMsgLog type ctx msg ts f)) =
           file_bytes f @ timestamp_text ts type @
           take 63 (origin_text func (ctx_line ctx)) @ msg @ [CHR 0x0A] \<and>
         length (take 63 (origin_text func (ctx_line ctx))) = 63 \<and>
         take 63 (origin_text func (ctx_line ctx)) \<noteq> origin_text func (ctx_line ctx)"
proof -
  have "file_bytes (fst (qtMsgLog type ctx msg ts f)) =
           file_bytes f @ timestamp_text ts type @
           take 63 (origin_text func (ctx_line ctx)) @ msg @ [CHR 0x0A]"
    using assms(3,4) by (simp add: qtMsgLog_open written_text_nonneg[OF assms(1,2)])
  moreover have "length (take 63 (origin_text func (ctx_line ctx))) = 63"
    using assms(5) by simp
  moreover have "take 63 (origin_text func (ctx_line ctx)) \<noteq> origin_text func (ctx_line ctx)"
  proof
    assume "take 63 (origin_text func (ctx_line ctx)) = origin_text func (ctx_line ctx)"
    then have "length (take 63 (origin_text func (ctx_line ctx))) =
        length (origin_text func (ctx_line ctx))"
      by simp
    with assms(5) show False by (simp add: min_def)
  qed
  ultimately show ?thesis by simp
qed

theorem origin_truncated_to_63_bytes_witness:
  "63 < length (origin_text long_function_name 120) \<and>
   file_bytes (fst (qtMsgLog QtDebugMsg \<lparr>ctx_function = Some long_function_name, ctx_line = 120\<rparr>
      ''destroyed'' 5 open_log)) =
     ''[     0.005 d] void Compositor::surfaceAboutToBeDestroyed(QWaylandSurface *sur'' @
     ''destroyed'' @ [CHR 0x0A]"
proof -
  have h: "(0::int) \<le> 5" "(5::int) < 2 ^ 63" "file_isOpen open_log"
    "ctx_function \<lparr>ctx_function = Some long_function_name, ctx_line = 120\<rparr> = Some long_function_name"
    by (simp_all add: open_log_def)
  have len: "63 < length (origin_text long_function_name
      (ctx_line \<lparr>ctx_function = Some long_function_name, ctx_line = 120\<rparr>))"
    by code_simp
  have t: "timestamp_text 5 QtDebugMsg = ''[     0.005 d] ''"
    by code_simp
  have o: "take 63 (origin_text long_function_name 120) =
      ''void Compositor::surfaceAboutToBeDestroyed(QWaylandSurface *sur''"
    by code_simp
  show ?thesis
    using origin_truncated_to_63_bytes[OF h len, of QtDebugMsg "''destroyed''"] len t o
    by (simp add: open_log_def)
qed

section \<open>Screen selection: letter case and the empty selection\<close>

lemma toLower_not_upper: "isUpper x \<Longrightarrow> \<not> isUpper (toLower x)"
  by (simp add: toLower_def isUpper_def)

lemma toLower_idem: "toLower (toLower x) = toLower x"
  by (cases "isUpper x") (simp_all add: toLower_not_upper toLower_def[of "toLower x"], simp add: toLower_def)

lemma same_letter_toLower: "same_letter x y \<Longrightarrow> toLower x = toLower y"
  unfolding same_letter_def using toLower_idem by metis

lemma differs_only_in_case_compare_ci:
  "differs_only_in_case a b \<Longrightarrow> length a = length b \<and> compare_ci a b"
  unfolding differs_only_in_case_def compare_ci_def
  by (induction a b rule: list_all2_induct) (simp_all add: same_letter_toLower)

lemma contains_ci_iff:
  "contains_ci strs s = (\<exists>t \<in> set strs. length t = length s \<and> compare_ci t s)"
  by (simp add: contains_ci_def list_ex_iff)

text \<open>
  Claim C9. A screen whose name differs from a requested name only in letter case is
  found by the case-insensitive lookup and is kept by the filter, so the selection is not
  empty and main goes on with the kept screens.
\<close>

theorem filter_ignores_letter_case:
  assumes "req \<in> set scrNames" "scr \<in> set screens"
    and "differs_only_in_case req (screen_name scr)"
  shows "contains_ci scrNames (screen_name scr) \<and>
         scr \<in> set (keepers scrNames screens) \<and>
         select_screens (Some scrNames) screens = Inr (keepers scrNames screens)"
proof -
  have hit: "contains_ci scrNames (screen_name scr)"
    using assms(1) differs_only_in_case_compare_ci[OF assms(3)]
    by (auto simp: contains_ci_iff)
  then have kept: "scr \<in> set (keepers scrNames screens)"
    using assms(2) by (simp add: keepers_def)
  then have "keepers scrNames screens \<noteq> []"
    by auto
  then show ?thesis
    using hit kept by (simp add: select_screens_def)
qed

theorem filter_ignores_letter_case_witness:
  "differs_only_in_case ''hdmi-1'' ''HDMI-1'' \<and>
   contains_ci [''hdmi-1''] ''HDMI-1'' \<and>
   hdmi1 \<in> set (keepers [''hdmi-1''] [hdmi1, edp1]) \<and>
   select_screens (Some [''hdmi-1'']) [hdmi1, edp1] = Inr (keepers [''hdmi-1''] [hdmi1, edp1])"
proof -
  have d: "differs_only_in_case ''hdmi-1'' (screen_name hdmi1)"
    by code_simp
  have n: "screen_name hdmi1 = ''HDMI-1''"
    by (simp add: hdmi1_def)
  show ?thesis
    using filter_ignores_letter_case[of "''hdmi-1''" "[''hdmi-1'']" hdmi1 "[hdmi1, edp1]", OF _ _ d] d n
    by simp
qed

lemma main_returns_early:
  assumes "select_screens (screenOption cfg) (gui_screens env) = Inl (code, notes)"
  shows "run_end (main env cfg) = Return code"
    and "run_qt_calls (main env cfg) = []"
    and "set notes \<subseteq> set (run_diagnostics (main env cfg))"
  using assms by (simp_all add: main_def Let_def split: prod.splits)

text \<open>
  Claim C3. When screen names are requested and no screen's name matches any of them, the
  filter keeps nothing, main prints the warning that names the requested screens and
  returns \<open>- 1\<close> (a non-zero exit status), and it makes no call on any window: it never
  reaches the placement loop and does not fall back to all screens.
\<close>

theorem no_matching_screen_is_fatal:
  assumes "screenOption cfg = Some scrNames"
    and "\<forall>scr \<in> set (gui_screens env). \<not> contains_ci scrNames (screen_name scr)"
  shows "keepers scrNames (gui_screens env) = [] \<and>
         run_end (main env cfg) = Return (- 1) \<and>
         exit_status (- 1) \<noteq> 0 \<and>
         run_end (main env cfg) \<noteq> Exec \<and>
         run_qt_calls (main env cfg) = [] \<and>
         Warn_none_of_the_screens_exist scrNames \<in> set (run_diagnostics (main env cfg))"
proof -
  have empty: "keepers scrNames (gui_screens env) = []"
    using assms(2) by (simp add: keepers_def filter_empty_conv)
  then have sel: "select_screens (screenOption cfg) (gui_screens env) =
      Inl (- 1, Warn_none_of_the_screens_exist scrNames #
                map (\<lambda>scr. Warn_available_screen (screen_name scr) (screen_geometry scr))
                  (gui_screens env))"
    using assms(1) by (simp add: select_screens_def)
  show ?thesis
    using empty main_returns_early[OF sel] by (simp add: exit_status_def)
qed

theorem no_matching_screen_is_fatal_witness:
  "keepers [''nonexistent''] [hdmi1, edp1] = [] \<and>
   run_end (main sample_env no_such_screen_config) = Return (- 1) \<and>
   run_qt_calls (main sample_env no_such_screen_config) = [] \<and>
   Warn_none_of_the_screens_exist [''nonexistent'']
     \<in> set (run_diagnostics (main sample_env no_such_screen_config))"
proof -
  have opt: "screenOption no_such_screen_config = Some [''nonexistent'']"
    by (simp add: no_such_screen_config_def sample_config_def)
  have scr: "gui_screens sample_env = [hdmi1, edp1]"
    by (simp add: sample_env_def)
  have a: "\<not> contains_ci [''nonexistent''] (screen_name hdmi1)"
    by code_simp
  have b: "\<not> contains_ci [''nonexistent''] (screen_name edp1)"
    by code_simp
  have none: "\<forall>scr \<in> set (gui_screens sample_env). \<not> contains_ci [''nonexistent''] (screen_name scr)"
    using a b by (simp add: scr)
  show ?thesis
    using no_matching_screen_is_fatal[OF opt none] by (simp add: scr)
qed

section \<open>The signal handler and its installation\<close>

lemma setupSignalHandler_identity:
  "grefsonExecutablePath (fst (setupSignalHandler sys g st)) = grefsonExecutablePath g \<and>
   grefsonPID (fst (setupSignalHandler sys g st)) = grefsonPID g"
  by (simp add: setupSignalHandler_def Let_def split: prod.splits)

lemma main_identity:
  "grefsonExecutablePath (run_globals (main env cfg)) = applicationFilePath env \<and>
   grefsonPID (run_globals (main env cfg)) = applicationPid env"
proof -
  obtain g2 st warnings where s:
    "setupSignalHandler (sys_calls env)
       ((initial_globals (homePath env))
          \<lparr>grefsonExecutablePath := applicationFilePath env, grefsonPID := applicationPid env\<rparr>)
       (startup_signals env) = (g2, st, warnings)"
    by (metis prod_cases3)
  have "grefsonExecutablePath g2 = applicationFilePath env \<and> grefsonPID g2 = applicationPid env"
    using setupSignalHandler_identity[of "sys_calls env"
        "(initial_globals (homePath env))
          \<lparr>grefsonExecutablePath := applicationFilePath env, grefsonPID := applicationPid env\<rparr>"
        "startup_signals env"]
    by (simp add: s)
  then show ?thesis
    by (cases "respawnOption cfg")
       (simp_all add: main_def Let_def s split: option.splits sum.splits prod.splits)
qed

lemma exec_calls_signalHandler:
  "exec_calls (fst (signalHandler g sig pid exec_ok fate)) =
     (if pid = 0 then [(c_str (grefsonExecutablePath g), [c_str (grefsonExecutablePath g)])] else [])"
  by (cases fate) (simp_all add: signalHandler_def Let_def take_Cons')

lemma child_kills_recorded_pid:
  "Sys_kill (grefsonPID g) 9 \<in> set (fst (signalHandler g sig 0 exec_ok fate))"
  by (simp add: signalHandler_def Let_def)

lemma crashed_process_killed:
  assumes "0 < pid" "grefsonPID g = self"
  shows "crashed_process g self sig pid exec_ok n otherwise =
           (take (min n 2) [Sys_prctl_set_ptracer pid, Sys_waitpid pid], Process_killed 9)"
proof -
  have "fate_of_parent self (fst (signalHandler g sig 0 exec_ok Undisturbed)) n otherwise =
      Killed_at n 9"
    using child_kills_recorded_pid[of g sig exec_ok Undisturbed] assms(2)
    by (simp add: fate_of_parent_def)
  then show ?thesis
    using assms(1) by (simp add: crashed_process_def signalHandler_def Let_def take_Cons')
qed

text \<open>
  Claim C7, as amended. When \<^verbatim>\<open>fork\<close> has returned a positive pid, the handler's calls
  are, in this order and as far as it gets, naming the child as its tracer, waiting for
  the child, and \<^verbatim>\<open>_exit(EXIT_FAILURE)\<close>; it never returns to the crashed code and never
  exits with a status other than failure, and if nothing disturbs it, it makes all three
  calls. In the program something does: the child's first call sends signal 9 to the pid
  main recorded, which is the parent's own. So the parent is killed by that signal, having
  entered at most its first two calls, and does not reach \<^verbatim>\<open>_exit\<close>.
\<close>

theorem parent_branch_is_killed_by_the_child:
  assumes "0 < pid"
  shows "signalHandler g sig pid exec_ok Undisturbed =
           ([Sys_prctl_set_ptracer pid, Sys_waitpid pid, Sys_exit EXIT_FAILURE],
            Process_exited EXIT_FAILURE) \<and>
         exit_status EXIT_FAILURE \<noteq> 0 \<and>
         fst (signalHandler g sig pid exec_ok fate) =
           take (length (fst (signalHandler g sig pid exec_ok fate)))
             [Sys_prctl_set_ptracer pid, Sys_waitpid pid, Sys_exit EXIT_FAILURE] \<and>
         snd (signalHandler g sig pid exec_ok fate) \<noteq> Handler_returned \<and>
         (\<forall>code. snd (signalHandler g sig pid exec_ok fate) = Process_exited code \<longrightarrow>
            code = EXIT_FAILURE \<and> fate = Undisturbed) \<and>
         crashed_process (run_globals (main env cfg)) (applicationPid env) sig pid exec_ok n otherwise =
           (take (min n 2) [Sys_prctl_set_ptracer pid, Sys_waitpid pid], Process_killed 9) \<and>
         Sys_exit EXIT_FAILURE \<notin>
           set (fst (crashed_process (run_globals (main env cfg)) (applicationPid env) sig pid
                  exec_ok n otherwise))"
proof -
  have undisturbed: "signalHandler g sig pid exec_ok Undisturbed =
      ([Sys_prctl_set_ptracer pid, Sys_waitpid pid, Sys_exit EXIT_FAILURE],
       Process_exited EXIT_FAILURE)"
    using assms by (simp add: signalHandler_def)
  have status: "exit_status EXIT_FAILURE \<noteq> 0"
    by (simp add: exit_status_def EXIT_FAILURE_def)
  have order: "fst (signalHandler g sig pid exec_ok fate) =
      take (length (fst (signalHandler g sig pid exec_ok fate)))
        [Sys_prctl_set_ptracer pid, Sys_waitpid pid, Sys_exit EXIT_FAILURE]"
    using assms by (cases fate) (simp_all add: signalHandler_def Let_def take_Cons')
  have ends: "snd (signalHandler g sig pid exec_ok fate) \<noteq> Handler_returned"
    "\<And>code. snd (signalHandler g sig pid exec_ok fate) = Process_exited code \<Longrightarrow>
       code = EXIT_FAILURE \<and> fate = Undisturbed"
    using assms by (cases fate; simp add: signalHandler_def Let_def)+
  have killed: "crashed_process (run_globals (main env cfg)) (applicationPid env) sig pid
      exec_ok n otherwise =
      (take (min n 2) [Sys_prctl_set_ptracer pid, Sys_waitpid pid], Process_killed 9)"
    using assms main_identity[of env cfg] by (simp add: crashed_process_killed)
  have no_exit: "Sys_exit EXIT_FAILURE \<notin>
      set (fst (crashed_process (run_globals (main env cfg)) (applicationPid env) sig pid
             exec_ok n otherwise))"
    unfolding killed by (simp add: take_Cons')
  show ?thesis
    using undisturbed status order ends killed no_exit by blast
qed

theorem parent_branch_is_killed_by_the_child_witness:
  "signalHandler (run_globals (main sample_env sample_config)) SIGSEGV 4243 True Undisturbed =
     ([Sys_prctl_set_ptracer 4243, Sys_waitpid 4243, Sys_exit 1], Process_exited 1) \<and>
   crashed_process (run_globals (main sample_env sample_config)) 4242 SIGSEGV 4243 True 2
     Undisturbed =
     ([Sys_prctl_set_ptracer 4243, Sys_waitpid 4243], Process_killed 9)"
proof -
  have p: "applicationPid sample_env = 4242"
    by (simp add: sample_env_def)
  have h: "(0::int) < 4243"
    by simp
  show ?thesis
    using parent_branch_is_killed_by_the_child[OF h,
        of "run_globals (main sample_env sample_config)" SIGSEGV True Undisturbed
           sample_env sample_config 2 Undisturbed]
    by (simp add: p EXIT_FAILURE_def)
qed

text \<open>
  The claim as the specification words it fails on a run of the program: the process
  4242 crashes, its \<^verbatim>\<open>fork\<close> returns 4243, and the child kills 4242 while it waits. The
  parent does not end in an exit with failure status, and makes no \<^verbatim>\<open>_exit\<close> call.
\<close>

theorem parent_does_not_reach_exit:
  "snd (crashed_process (run_globals (main sample_env sample_config)) 4242 SIGSEGV 4243 True 2
          Undisturbed) \<noteq> Process_exited EXIT_FAILURE \<and>
   Sys_exit EXIT_FAILURE \<notin>
     set (fst (crashed_process (run_globals (main sample_env sample_config)) 4242 SIGSEGV 4243
                 True 2 Undisturbed))"
proof -
  have "grefsonPID (run_globals (main sample_env sample_config)) = 4242"
    using main_identity[of sample_env sample_config] by (simp add: sample_env_def)
  then have "crashed_process (run_globals (main sample_env sample_config)) 4242 SIGSEGV 4243
      True 2 Undisturbed =
      (take (min 2 2) [Sys_prctl_set_ptracer 4243, Sys_waitpid 4243], Process_killed 9)"
    by (intro crashed_process_killed) simp_all
  then show ?thesis
    by simp
qed

text \<open>
  Claim C8. For an executable path without a NUL byte (every file path), the path and pid
  that main records are still in the globals when main is done, whatever the options:
  setupSignalHandler leaves both alone and the handler only reads them. The child
  branch's only \<^verbatim>\<open>execl\<close> is of the recorded path with the argument vector holding just
  that path (the program name and no argument), and no branch of the handler execs
  anything else.
\<close>

theorem respawn_execs_recorded_path:
  assumes "CHR 0x00 \<notin> set (applicationFilePath env)"
  shows "grefsonExecutablePath (run_globals (main env cfg)) = applicationFilePath env \<and>
         grefsonPID (run_globals (main env cfg)) = applicationPid env \<and>
         exec_calls (fst (signalHandler (run_globals (main env cfg)) sig 0 exec_ok fate)) =
           [(applicationFilePath env, [applicationFilePath env])] \<and>
         (\<forall>pid. set (exec_calls (fst (signalHandler (run_globals (main env cfg)) sig pid exec_ok fate)))
            \<subseteq> {(applicationFilePath env, [applicationFilePath env])}) \<and>
         grefsonExecutablePath (fst (setupSignalHandler sys g st)) = grefsonExecutablePath g \<and>
         grefsonPID (fst (setupSignalHandler sys g st)) = grefsonPID g"
  using main_identity[of env cfg] setupSignalHandler_identity[of sys g st] c_str_id[OF assms]
  by (auto simp: exec_calls_signalHandler)

theorem respawn_execs_recorded_path_witness:
  "grefsonExecutablePath (run_globals (main sample_env sample_config)) = ''/usr/bin/grefsen'' \<and>
   exec_calls (fst (signalHandler (run_globals (main sample_env sample_config)) SIGSEGV 0 True Undisturbed)) =
     [(''/usr/bin/grefsen'', [''/usr/bin/grefsen''])]"
proof -
  have p: "applicationFilePath sample_env = ''/usr/bin/grefsen''"
    by (simp add: sample_env_def)
  have h: "CHR 0x00 \<notin> set (applicationFilePath sample_env)"
    by (simp add: p)
  show ?thesis
    using respawn_execs_recorded_path[OF h, of sample_config SIGSEGV True Undisturbed] by (simp add: p)
qed

lemma install_loop_keeps:
  "sig_action st sig = sa \<Longrightarrow> sig_action (fst (install_loop sys sa sigs st)) sig = sa"
  by (induction sigs arbitrary: st) (simp_all add: case_prod_unfold)

lemma install_loop_installs:
  "sig \<in> set (takeWhile (\<lambda>s. s \<noteq> 0) sigs) \<Longrightarrow> sigaction_result sys sig \<noteq> - 1 \<Longrightarrow>
   sig_action (fst (install_loop sys sa sigs st)) sig = sa"
proof (induction sigs arbitrary: st)
  case Nil
  then show ?case by simp
next
  case (Cons s sigs)
  show ?case
  proof (cases "s = sig")
    case True
    then show ?thesis
      using Cons.prems by (simp add: install_loop_keeps split: if_splits)
  next
    case False
    then show ?thesis
      using Cons by (simp add: case_prod_unfold split: if_splits)
  qed
qed

lemma install_loop_frame:
  "sig_blocked (fst (install_loop sys sa sigs st)) = sig_blocked st \<and>
   sig_altstack (fst (install_loop sys sa sigs st)) = sig_altstack st"
  by (induction sigs arbitrary: st) (simp_all add: case_prod_unfold)

lemma flags_set:
  "(SA_RESETHAND OR SA_NODEFER OR SA_ONSTACK) AND SA_RESETHAND \<noteq> 0"
  "(SA_RESETHAND OR SA_NODEFER OR SA_ONSTACK) AND SA_NODEFER \<noteq> 0"
  "(SA_RESETHAND OR SA_NODEFER OR SA_ONSTACK) AND SA_ONSTACK \<noteq> 0"
  by (simp_all add: SA_RESETHAND_def SA_NODEFER_def SA_ONSTACK_def)

lemma handled_signals:
  "set (takeWhile (\<lambda>s. s \<noteq> 0) signalsToHandle) = {SIGILL, SIGABRT, SIGFPE, SIGSEGV, SIGBUS}"
  by (auto simp: signalsToHandle_def SIGILL_def SIGABRT_def SIGFPE_def SIGSEGV_def SIGBUS_def)

lemma setupSignalHandler_installs:
  assumes "sig \<in> {SIGILL, SIGABRT, SIGFPE, SIGSEGV, SIGBUS}"
    and "malloc_result sys \<noteq> 0" "sigaltstack_result sys \<noteq> - 1"
    and "sigemptyset_result sys \<noteq> - 1" "sigaction_result sys sig \<noteq> - 1"
  shows "sig_action (fst (snd (setupSignalHandler sys g st))) sig = installed_action"
    and "sig_blocked (fst (snd (setupSignalHandler sys g st))) = sig_blocked st"
    and "sig_altstack (fst (snd (setupSignalHandler sys g st))) = Some (malloc_result sys)"
proof -
  let ?st' = "st\<lparr>sig_altstack := Some (malloc_result sys)\<rparr>"
  have run: "fst (snd (setupSignalHandler sys g st)) =
      fst (install_loop sys installed_action signalsToHandle ?st')"
    using assms(2-4)
    by (simp add: setupSignalHandler_def Let_def case_prod_unfold)
  have "sig \<in> set (takeWhile (\<lambda>s. s \<noteq> 0) signalsToHandle)"
    using assms(1) by (simp only: handled_signals)
  then show "sig_action (fst (snd (setupSignalHandler sys g st))) sig = installed_action"
    unfolding run using assms(5) by (rule install_loop_installs)
  show "sig_blocked (fst (snd (setupSignalHandler sys g st))) = sig_blocked st"
    unfolding run by (simp add: install_loop_frame)
  show "sig_altstack (fst (snd (setupSignalHandler sys g st))) = Some (malloc_result sys)"
    unfolding run by (simp add: install_loop_frame)
qed

text \<open>
  Claim C6. Let setupSignalHandler have installed the handler for one of the five fatal
  signals (its calls succeeded), the signal not being blocked. The first delivery of the
  signal enters the handler, on the alternate stack, in a state where the signal's action
  is the default again and the signal is not blocked. A second delivery of the same
  signal from inside the handler therefore takes the default action and does not enter
  the handler again.
\<close>

theorem repeated_fault_takes_default_action:
  assumes "sig \<in> {SIGILL, SIGABRT, SIGFPE, SIGSEGV, SIGBUS}"
    and "malloc_result sys \<noteq> 0" "sigaltstack_result sys \<noteq> - 1"
    and "sigemptyset_result sys \<noteq> - 1" "sigaction_result sys sig \<noteq> - 1"
    and "sig \<notin> sig_blocked st"
  shows "\<exists>inside.
           deliver sig (fst (snd (setupSignalHandler sys g st))) = HandlerEntered inside True \<and>
           sa_handler (sig_action inside sig) = SIG_DFL \<and>
           sig \<notin> sig_blocked inside \<and>
           deliver sig inside = DefaultAction sig"
proof -
  let ?armed = "fst (snd (setupSignalHandler sys g st))"
  note inst = setupSignalHandler_installs[OF assms(1-5), of g st]
  define inside where
    "inside = ?armed\<lparr>sig_action := (sig_action ?armed)(sig := installed_action\<lparr>sa_handler := SIG_DFL\<rparr>),
                      sig_blocked := sig_blocked ?armed\<rparr>"
  have entered: "deliver sig ?armed = HandlerEntered inside True"
    using assms(6) inst flags_set
    by (simp add: deliver_def Let_def inside_def installed_action_def)
  have dfl: "sa_handler (sig_action inside sig) = SIG_DFL"
    by (simp add: inside_def)
  have open_sig: "sig \<notin> sig_blocked inside"
    using assms(6) inst(2) by (simp add: inside_def)
  have again: "deliver sig inside = DefaultAction sig"
    using dfl open_sig by (simp add: deliver_def Let_def)
  show ?thesis
    using entered dfl open_sig again by blast
qed

theorem repeated_fault_takes_default_action_witness:
  "\<exists>inside.
     deliver SIGSEGV (fst (snd (setupSignalHandler calls_succeed (initial_globals ''/home/user'')
        startup_state))) = HandlerEntered inside True \<and>
     sa_handler (sig_action inside SIGSEGV) = SIG_DFL \<and>
     SIGSEGV \<notin> sig_blocked inside \<and>
     deliver SIGSEGV inside = DefaultAction SIGSEGV"
proof -
  have h: "SIGSEGV \<in> {SIGILL, SIGABRT, SIGFPE, SIGSEGV, SIGBUS}"
    "malloc_result calls_succeed \<noteq> 0" "sigaltstack_result calls_succeed \<noteq> - 1"
    "sigemptyset_result calls_succeed \<noteq> - 1" "sigaction_result calls_succeed SIGSEGV \<noteq> - 1"
    "SIGSEGV \<notin> sig_blocked startup_state"
    by (simp_all add: calls_succeed_def startup_state_def)
  show ?thesis
    using repeated_fault_takes_default_action[OF h] by blast
qed

end
